theory Spec2Isabelle
  imports Main "HOL-Library.Word"
begin

unbundle bit_operations_syntax

text \<open>
  The peer link of rain (\<^verbatim>\<open>internal/peer/peer.go\<close>): the \<^verbatim>\<open>Peer\<close> struct, its send
  operations, \<^verbatim>\<open>Close\<close>, and the read loop of \<^verbatim>\<open>Run\<close>, as functions on an explicit state.
  A connection is the bytes still to arrive and the buffers written so far; a return of
  \<^verbatim>\<open>Run\<close> is a value of type \<open>exit\<close>, a panic included.
\<close>

section \<open>Machine types and the wire encoding\<close>

type_synonym byte = "8 word"
type_synonym uint32 = "32 word"

text \<open>\<^verbatim>\<open>binary.BigEndian\<close>: four bytes, most significant first.\<close>

definition be_uint32 :: "byte list \<Rightarrow> uint32" where
  "be_uint32 bs = foldl (\<lambda>acc b. push_bit 8 acc OR ucast b) 0 bs"

text \<open>A single byte read through \<^verbatim>\<open>binary.Read\<close> (the message id).\<close>

definition be_uint8 :: "byte list \<Rightarrow> byte" where
  "be_uint8 bs = (case bs of [] \<Rightarrow> 0 | b # _ \<Rightarrow> b)"

definition put_uint32 :: "uint32 \<Rightarrow> byte list" where
  "put_uint32 w = [ucast (drop_bit 24 w), ucast (drop_bit 16 w), ucast (drop_bit 8 w), ucast w]"

text \<open>
  Modelled from the spec: the constants of package \<^verbatim>\<open>messageid\<close>, which peer.go imports
  and which is not among the sources. The values are those of the message table
  (id 0 choke ... id 9 port).
\<close>

definition Choke :: byte where "Choke = 0"
definition Unchoke :: byte where "Unchoke = 1"
definition Interested :: byte where "Interested = 2"
definition NotInterested :: byte where "NotInterested = 3"
definition Have :: byte where "Have = 4"
definition Bitfield :: byte where "Bitfield = 5"
definition Request :: byte where "Request = 6"
definition Piece :: byte where "Piece = 7"
definition Cancel :: byte where "Cancel = 8"
definition Port :: byte where "Port = 9"

text \<open>\<^verbatim>\<open>const maxAllowedBlockSize = 32 * 1024\<close> ("Reject requests larger than this size").\<close>

definition maxAllowedBlockSize :: uint32 where
  "maxAllowedBlockSize = 32 * 1024"

section \<open>Bitfield\<close>

text \<open>
  Modelled from the spec: package \<^verbatim>\<open>bitfield\<close>, which peer.go imports and which is not
  among the sources. A bitfield is a fixed-length boolean vector; bit \<open>i\<close> of the packed
  form lives at byte \<open>i div 8\<close>, bit position \<open>7 - i mod 8\<close>; \<open>Set\<close> and \<open>Test\<close> fail
  outside \<open>[0, length)\<close> (\<open>None\<close>); unused trailing bits are zero on encode and ignored
  on decode; \<open>NumBytes n\<close> is \<open>n / 8\<close> rounded up. This covers \<open>NumBytes\<close>, \<open>bf_New\<close>,
  \<open>bf_Len\<close>, \<open>bf_Test\<close>, \<open>bf_Set\<close>, \<open>bf_Count\<close>, \<open>bf_Bytes\<close> (with \<open>pack_byte\<close>) and
  \<open>NewBytes\<close> (with \<open>unpack_bits\<close>); \<open>NewBytes\<close> is the spec's \<open>NewFromBytes\<close> under the
  name peer.go calls it by, and it fails on fewer bytes than \<open>NumBytes n\<close>.
\<close>

type_synonym Bitfield = "bool list"

definition NumBytes :: "nat \<Rightarrow> nat" where
  "NumBytes n = (n + 7) div 8"

definition bf_New :: "nat \<Rightarrow> Bitfield" where
  "bf_New n = replicate n False"

definition bf_Len :: "Bitfield \<Rightarrow> nat" where
  "bf_Len bf = length bf"

definition bf_Test :: "Bitfield \<Rightarrow> nat \<Rightarrow> bool option" where
  "bf_Test bf i = (if i < length bf then Some (bf ! i) else None)"

definition bf_Set :: "Bitfield \<Rightarrow> nat \<Rightarrow> Bitfield option" where
  "bf_Set bf i = (if i < length bf then Some (bf[i := True]) else None)"

definition bf_Count :: "Bitfield \<Rightarrow> nat" where
  "bf_Count bf = length (filter (\<lambda>b. b) bf)"

definition pack_byte :: "Bitfield \<Rightarrow> nat \<Rightarrow> byte" where
  "pack_byte bf k =
     foldl (\<lambda>acc j. if 8 * k + j < length bf \<and> bf ! (8 * k + j)
                     then set_bit (7 - j) acc else acc) 0 [0..<8]"

definition bf_Bytes :: "Bitfield \<Rightarrow> byte list" where
  "bf_Bytes bf = map (pack_byte bf) [0..<NumBytes (length bf)]"

definition unpack_bits :: "byte list \<Rightarrow> nat \<Rightarrow> Bitfield" where
  "unpack_bits b n = map (\<lambda>i. bit (b ! (i div 8)) (7 - i mod 8)) [0..<n]"

definition NewBytes :: "byte list \<Rightarrow> nat \<Rightarrow> Bitfield option" where
  "NewBytes b n = (if length b < NumBytes n then None else Some (unpack_bits b n))"

section \<open>The connection, channels and the peer\<close>

text \<open>
  \<^verbatim>\<open>net.Conn\<close> as the reader sees it: \<open>inp\<close> holds the bytes the remote side delivers
  before the stream ends (EOF, or silence until the read deadline); \<open>out\<close> records, in
  order, each buffer handed to \<^verbatim>\<open>conn.Write\<close>; the flags say whether \<^verbatim>\<open>Write\<close> and
  \<^verbatim>\<open>SetReadDeadline\<close> report an error, and whether \<^verbatim>\<open>conn.Close\<close> has been called.
\<close>

record Conn =
  inp :: "byte list"
  out :: "byte list list"
  write_fails :: bool
  deadline_fails :: bool
  conn_closed :: bool

text \<open>A channel that only ever carries its close: \<^verbatim>\<open>chan struct{}\<close>.\<close>

datatype chan = ChOpen | ChClosed

datatype panic = NilDereference | IndexOutOfBound | CloseOfClosedChannel

text \<open>Closing a closed channel is a run-time panic in Go.\<close>

definition close_chan :: "chan \<Rightarrow> chan option" where
  "close_chan ch = (case ch of ChOpen \<Rightarrow> Some ChClosed | ChClosed \<Rightarrow> None)"

text \<open>
  Modelled from the spec: the types \<^verbatim>\<open>Message\<close>, \<^verbatim>\<open>Choke\<close>, \<^verbatim>\<open>Have\<close>, \<^verbatim>\<open>Piece\<close> and
  \<^verbatim>\<open>Request\<close>, which a file of package \<^verbatim>\<open>peer\<close> that is not among the sources
  declares. The composite literals of peer.go and the message table fix their fields: a
  have is a 4-byte index, a piece header is index and begin, a request is index, begin
  and length. What the read loop forwards on \<^verbatim>\<open>p.messages\<close> is \<^verbatim>\<open>Message{p, Choke{}}\<close>
  or \<^verbatim>\<open>Message{p, Have{i}}\<close> (the back-reference to the peer is left out).
\<close>

datatype Message = MsgChoke | MsgHave uint32

text \<open>
  The struct \<^verbatim>\<open>Peer\<close>. \<open>bitfield\<close> is a pointer, \<open>None\<close> being nil. \<open>messages\<close> is what
  has been sent on the channel so far, oldest first (the coordinator is taken to receive).
  \<open>stop_wins\<close> is the scheduler: when a \<^verbatim>\<open>select\<close> finds both the send and the closed
  \<open>stopC\<close> ready, Go takes either; \<open>stop_wins k\<close> says whether the stop case is taken at
  the select reached with \<open>k\<close> messages already forwarded. The logger and the mutex are
  left out.
\<close>

record Peer =
  conn :: Conn
  peer_id :: "byte list"
  numPieces :: uint32
  amChoking :: bool
  amInterested :: bool
  peerChoking :: bool
  peerInterested :: bool
  bitfield :: "Bitfield option"
  messages :: "Message list"
  stopC :: chan
  disconnected :: chan
  stop_wins :: "nat \<Rightarrow> bool"

definition New :: "Conn \<Rightarrow> byte list \<Rightarrow> uint32 \<Rightarrow> Message list \<Rightarrow> (nat \<Rightarrow> bool) \<Rightarrow> Peer" where
  "New c pid n msgs sw =
     \<lparr> conn = c, peer_id = pid, numPieces = n,
       amChoking = True, amInterested = False,
       peerChoking = True, peerInterested = False,
       bitfield = None, messages = msgs,
       stopC = ChOpen, disconnected = ChOpen, stop_wins = sw \<rparr>"

definition NotifyDisconnect :: "Peer \<Rightarrow> chan" where
  "NotifyDisconnect p = disconnected p"

text \<open>
  \<^verbatim>\<open>Close\<close>: \<^verbatim>\<open>close(p.stopC); return p.conn.Close()\<close>. The result is the panic, or
  whether \<^verbatim>\<open>conn.Close\<close> returned an error (it does on a connection already closed)
  together with the new state.
\<close>

definition Close :: "Peer \<Rightarrow> panic + bool \<times> Peer" where
  "Close p =
     (case close_chan (stopC p) of
        None \<Rightarrow> Inl CloseOfClosedChannel
      | Some ch \<Rightarrow>
          Inr (conn_closed (conn p),
               p\<lparr>stopC := ch, conn := (conn p)\<lparr>conn_closed := True\<rparr>\<rparr>))"

section \<open>Writing\<close>

text \<open>
  \<^verbatim>\<open>writeMessage\<close>: the header (length \<open>1 + len(payload)\<close> as \<^verbatim>\<open>uint32\<close>, then the id),
  then the payload, in one \<^verbatim>\<open>conn.Write\<close>. The boolean is \<open>err \<noteq> nil\<close>.
\<close>

definition writeMessage :: "byte \<Rightarrow> byte list \<Rightarrow> Peer \<Rightarrow> bool \<times> Peer" where
  "writeMessage mid payload p =
     (let buf = put_uint32 (of_nat (1 + length payload)) @ [mid] @ payload;
          c = conn p
      in (write_fails c \<or> conn_closed c, p\<lparr>conn := c\<lparr>out := out c @ [buf]\<rparr>\<rparr>))"

definition sendBitfield :: "Bitfield \<Rightarrow> Peer \<Rightarrow> bool \<times> Peer" where
  "sendBitfield b p =
     (if bf_Count b = 0 then (False, p) else writeMessage Bitfield (bf_Bytes b) p)"

definition SendInterested :: "Peer \<Rightarrow> bool \<times> Peer" where
  "SendInterested p =
     (if amInterested p then (False, p)
      else writeMessage Interested [] (p\<lparr>amInterested := True\<rparr>))"

definition SendNotInterested :: "Peer \<Rightarrow> bool \<times> Peer" where
  "SendNotInterested p =
     (if amInterested p then writeMessage NotInterested [] (p\<lparr>amInterested := False\<rparr>)
      else (False, p))"

definition SendChoke :: "Peer \<Rightarrow> bool \<times> Peer" where
  "SendChoke p =
     (if amChoking p then (False, p)
      else writeMessage Choke [] (p\<lparr>amChoking := True\<rparr>))"

definition SendUnchoke :: "Peer \<Rightarrow> bool \<times> Peer" where
  "SendUnchoke p =
     (if amChoking p then writeMessage Unchoke [] (p\<lparr>amChoking := False\<rparr>)
      else (False, p))"

definition SendRequest :: "uint32 \<Rightarrow> uint32 \<Rightarrow> uint32 \<Rightarrow> Peer \<Rightarrow> bool \<times> Peer" where
  "SendRequest piece begin len p =
     writeMessage Request (put_uint32 piece @ put_uint32 begin @ put_uint32 len) p"

definition SendPiece :: "uint32 \<Rightarrow> uint32 \<Rightarrow> byte list \<Rightarrow> Peer \<Rightarrow> bool \<times> Peer" where
  "SendPiece index begin block p =
     writeMessage Piece (put_uint32 index @ put_uint32 begin @ block) p"

section \<open>Reading\<close>

text \<open>
  \<^verbatim>\<open>io.ReadFull\<close> (which \<^verbatim>\<open>binary.Read\<close> uses) and \<^verbatim>\<open>io.CopyN\<close> to \<^verbatim>\<open>ioutil.Discard\<close>:
  \<open>n\<close> bytes, or an error once the stream has fewer; what was there is consumed.
\<close>

definition read_full :: "nat \<Rightarrow> Conn \<Rightarrow> byte list option \<times> Conn" where
  "read_full n c =
     (if conn_closed c then (None, c)
      else if length (inp c) < n then (None, c\<lparr>inp := []\<rparr>)
      else (Some (take n (inp c)), c\<lparr>inp := drop n (inp c)\<rparr>))"

datatype exit = ReadError | WriteError | ProtocolViolation | Stopped | Panicked panic

text \<open>
  One pass through the body of the \<^verbatim>\<open>for\<close> loop either returns from \<^verbatim>\<open>Run\<close> or goes
  round again, with the value \<open>first\<close> then has.
\<close>

datatype outcome = Exit exit Peer | Next bool Peer

text \<open>
  \<^verbatim>\<open>select { case p.messages <- m: case <-p.stopC: return }\<close>; \<open>None\<close> is the return.
\<close>

definition select_send :: "Peer \<Rightarrow> Message \<Rightarrow> Peer option" where
  "select_send p m =
     (if stopC p = ChClosed \<and> stop_wins p (length (messages p)) then None
      else Some (p\<lparr>messages := messages p @ [m]\<rparr>))"

definition handle_Choke :: "Peer \<Rightarrow> outcome" where
  "handle_Choke p =
     (let p1 = p\<lparr>peerChoking := True\<rparr>
      in case select_send p1 MsgChoke of
           None \<Rightarrow> Exit Stopped p1
         | Some p2 \<Rightarrow> Next False p2)"

text \<open>
  \<^verbatim>\<open>case messageid.Have\<close>: four bytes are read whatever the declared length.
  \<^verbatim>\<open>p.bitfield.Set\<close> is a method on the pointer: to set a bit it dereferences its
  receiver, which is a run-time panic in Go when \<open>p.bitfield\<close> is nil (and no method can
  make the caller's nil pointer point to a bitfield).
\<close>

definition handle_Have :: "Peer \<Rightarrow> outcome" where
  "handle_Have p =
     (case read_full 4 (conn p) of
        (None, c) \<Rightarrow> Exit ReadError (p\<lparr>conn := c\<rparr>)
      | (Some bs, c) \<Rightarrow>
          (let p1 = p\<lparr>conn := c\<rparr>; index = be_uint32 bs
           in if numPieces p1 \<le> index then Exit ProtocolViolation p1
              else case bitfield p1 of
                     None \<Rightarrow> Exit (Panicked NilDereference) p1
                   | Some bf \<Rightarrow>
                       (case bf_Set bf (unat index) of
                          None \<Rightarrow> Exit (Panicked IndexOutOfBound) p1
                        | Some bf' \<Rightarrow>
                            (let p2 = p1\<lparr>bitfield := Some bf'\<rparr>
                             in case select_send p2 (MsgHave index) of
                                  None \<Rightarrow> Exit Stopped p2
                                | Some p3 \<Rightarrow> Next False p3))))"

text \<open>
  \<^verbatim>\<open>for i := uint32(0); i < p.bitfield.Len(); i++\<close>, over the indices still to visit.
\<close>

fun emit_haves :: "nat list \<Rightarrow> Peer \<Rightarrow> outcome" where
  "emit_haves [] p = Next False p"
| "emit_haves (i # rest) p =
     (case bitfield p of
        None \<Rightarrow> Exit (Panicked NilDereference) p
      | Some bf \<Rightarrow>
          (case bf_Test bf i of
             None \<Rightarrow> Exit (Panicked IndexOutOfBound) p
           | Some False \<Rightarrow> emit_haves rest p
           | Some True \<Rightarrow>
               (case select_send p (MsgHave (of_nat i)) of
                  None \<Rightarrow> Exit Stopped p
                | Some p' \<Rightarrow> emit_haves rest p')))"

definition handle_Bitfield :: "bool \<Rightarrow> uint32 \<Rightarrow> Peer \<Rightarrow> outcome" where
  "handle_Bitfield first len p =
     (if first = False then Exit ProtocolViolation p
      else
        (let numBytes = (of_nat (NumBytes (unat (numPieces p))) :: uint32)
         in if len = numBytes then
              (case read_full (unat numBytes) (conn p) of
                 (None, c) \<Rightarrow> Exit ReadError (p\<lparr>conn := c\<rparr>)
               | (Some b, c) \<Rightarrow>
                   (case NewBytes b (unat (numPieces p)) of
                      None \<Rightarrow> Exit (Panicked IndexOutOfBound) (p\<lparr>conn := c\<rparr>)
                    | Some bf \<Rightarrow>
                        emit_haves [0..<bf_Len bf] (p\<lparr>conn := c, bitfield := Some bf\<rparr>)))
            else Exit ProtocolViolation p))"

text \<open>
  \<^verbatim>\<open>case messageid.Piece\<close>: index and begin are read, \<^verbatim>\<open>length -= 8\<close> is computed, and
  the rest of the case is commented out in the source: nothing reads the block.
\<close>

definition handle_Piece :: "uint32 \<Rightarrow> Peer \<Rightarrow> outcome" where
  "handle_Piece len p =
     (case read_full 8 (conn p) of
        (None, c) \<Rightarrow> Exit ReadError (p\<lparr>conn := c\<rparr>)
      | (Some msg, c) \<Rightarrow> (let len' = len - 8 in Next False (p\<lparr>conn := c\<rparr>)))"

text \<open>\<^verbatim>\<open>default\<close>: \<^verbatim>\<open>io.CopyN(ioutil.Discard, p.conn, int64(length))\<close>.\<close>

definition handle_default :: "uint32 \<Rightarrow> Peer \<Rightarrow> outcome" where
  "handle_default len p =
     (case read_full (unat len) (conn p) of
        (None, c) \<Rightarrow> Exit ReadError (p\<lparr>conn := c\<rparr>)
      | (Some discarded, c) \<Rightarrow> Next False (p\<lparr>conn := c\<rparr>))"

text \<open>The \<^verbatim>\<open>switch id\<close>; the request case is commented out in the source.\<close>

definition dispatch :: "bool \<Rightarrow> byte \<Rightarrow> uint32 \<Rightarrow> Peer \<Rightarrow> outcome" where
  "dispatch first mid len p =
     (if mid = Choke then handle_Choke p
      else if mid = Unchoke then Next False (p\<lparr>peerChoking := False\<rparr>)
      else if mid = Interested then Next False (p\<lparr>peerInterested := True\<rparr>)
      else if mid = NotInterested then Next False (p\<lparr>peerInterested := False\<rparr>)
      else if mid = Have then handle_Have p
      else if mid = Bitfield then handle_Bitfield first len p
      else if mid = Piece then handle_Piece len p
      else handle_default len p)"

text \<open>
  The body of the loop: the read deadline, the length prefix, the keep-alive
  \<^verbatim>\<open>continue\<close> (which leaves \<open>first\<close> as it is), the id, \<^verbatim>\<open>length--\<close>, the switch.
\<close>

definition step :: "bool \<Rightarrow> Peer \<Rightarrow> outcome" where
  "step first p =
     (if deadline_fails (conn p) then Exit ReadError p
      else case read_full 4 (conn p) of
             (None, c) \<Rightarrow> Exit ReadError (p\<lparr>conn := c\<rparr>)
           | (Some lb, c) \<Rightarrow>
               (let p1 = p\<lparr>conn := c\<rparr>; len = be_uint32 lb
                in if len = 0 then Next first p1
                   else case read_full 1 (conn p1) of
                          (None, c') \<Rightarrow> Exit ReadError (p1\<lparr>conn := c'\<rparr>)
                        | (Some ib, c') \<Rightarrow>
                            dispatch first (be_uint8 ib) (len - 1) (p1\<lparr>conn := c'\<rparr>)))"

section \<open>Peers to evaluate on\<close>

text \<open>
  A healthy connection on which the remote side sends \<open>bs\<close> and then nothing more, and
  the peer \<^verbatim>\<open>New\<close> makes for it in a torrent of eight pieces. \<open>peer_of\<close> is the
  state an iteration ends in.
\<close>

definition conn_of :: "byte list \<Rightarrow> Conn" where
  "conn_of bs = \<lparr>inp = bs, out = [], write_fails = False, deadline_fails = False, conn_closed = False\<rparr>"

definition fresh_peer :: "byte list \<Rightarrow> Peer" where
  "fresh_peer bs = New (conn_of bs) [] 8 [] (\<lambda>k. False)"

fun peer_of :: "outcome \<Rightarrow> Peer" where
  "peer_of (Exit e p) = p"
| "peer_of (Next f p) = p"

section \<open>The read loop and Run\<close>

lemma read_full_length:
  "read_full n c = (r, c') \<Longrightarrow> length (inp c') \<le> length (inp c)"
  by (auto simp: read_full_def split: if_splits)

lemma read_full_Some_length:
  "read_full n c = (Some bs, c') \<Longrightarrow> length (inp c') + n = length (inp c)"
  by (auto simp: read_full_def split: if_splits)

lemma select_send_conn:
  "select_send p m = Some p' \<Longrightarrow> conn p' = conn p"
  by (auto simp: select_send_def split: if_splits)

lemma emit_haves_conn:
  "emit_haves xs p = Next f p' \<Longrightarrow> conn p' = conn p"
proof (induction xs arbitrary: p)
  case Nil
  then show ?case by simp
next
  case (Cons i rest)
  then show ?case
    by (auto split: option.splits bool.splits dest: select_send_conn)
qed

lemma handle_Choke_length:
  "handle_Choke p = Next f p' \<Longrightarrow> length (inp (conn p')) \<le> length (inp (conn p))"
  by (auto simp: handle_Choke_def Let_def split: option.splits dest!: select_send_conn)

lemma handle_Have_length:
  "handle_Have p = Next f p' \<Longrightarrow> length (inp (conn p')) \<le> length (inp (conn p))"
  by (auto simp: handle_Have_def Let_def split: if_splits option.splits prod.splits
      dest!: select_send_conn read_full_length)

lemma handle_Bitfield_length:
  "handle_Bitfield first len p = Next f p' \<Longrightarrow> length (inp (conn p')) \<le> length (inp (conn p))"
  by (auto simp: handle_Bitfield_def Let_def split: if_splits option.splits prod.splits
      dest!: emit_haves_conn read_full_length)

lemma handle_Piece_length:
  "handle_Piece len p = Next f p' \<Longrightarrow> length (inp (conn p')) \<le> length (inp (conn p))"
  by (auto simp: handle_Piece_def Let_def split: option.splits prod.splits dest: read_full_length)

lemma handle_default_length:
  "handle_default len p = Next f p' \<Longrightarrow> length (inp (conn p')) \<le> length (inp (conn p))"
  by (auto simp: handle_default_def split: option.splits prod.splits dest: read_full_length)

lemma dispatch_length:
  "dispatch first mid len p = Next f p' \<Longrightarrow> length (inp (conn p')) \<le> length (inp (conn p))"
  by (auto simp: dispatch_def split: if_splits
      dest: handle_Choke_length handle_Have_length handle_Bitfield_length
        handle_Piece_length handle_default_length)

lemma step_length:
  assumes "step first p = Next f p'"
  shows "length (inp (conn p')) < length (inp (conn p))"
proof -
  from assms obtain lb c where r: "read_full 4 (conn p) = (Some lb, c)"
    by (auto simp: step_def split: if_splits option.splits prod.splits)
  then have c: "length (inp c) + 4 = length (inp (conn p))"
    by (rule read_full_Some_length)
  show ?thesis
  proof (cases "be_uint32 lb = 0")
    case True
    with assms r c show ?thesis
      by (auto simp: step_def split: if_splits)
  next
    case False
    with assms r obtain ib c' where
      r': "read_full 1 c = (Some ib, c')" and
      d: "dispatch first (be_uint8 ib) (be_uint32 lb - 1) (p\<lparr>conn := c'\<rparr>) = Next f p'"
      by (auto simp: step_def Let_def split: if_splits option.splits prod.splits)
    from r' have "length (inp c') \<le> length (inp c)"
      by (rule read_full_length)
    moreover from d have "length (inp (conn p')) \<le> length (inp c')"
      by (auto dest: dispatch_length)
    ultimately show ?thesis using c by simp
  qed
qed

text \<open>The \<^verbatim>\<open>for\<close> loop of \<^verbatim>\<open>Run\<close>, started with \<open>first\<close>.\<close>

function loop :: "bool \<Rightarrow> Peer \<Rightarrow> exit \<times> Peer" where
  "loop first p =
     (case step first p of
        Exit e p' \<Rightarrow> (e, p')
      | Next first' p' \<Rightarrow> loop first' p')"
  by pat_completeness auto
termination
  by (relation "measure (\<lambda>(first, p). length (inp (conn p)))") (auto dest: step_length)

declare loop.simps [simp del]

text \<open>
  \<^verbatim>\<open>Run\<close> without its deferred call: the bitfield is sent, then the loop runs with
  \<open>first\<close> true.
\<close>

definition Run_body :: "Bitfield \<Rightarrow> Peer \<Rightarrow> exit \<times> Peer" where
  "Run_body b p =
     (case sendBitfield b p of
        (True, p') \<Rightarrow> (WriteError, p')
      | (False, p') \<Rightarrow> loop True p')"

text \<open>
  \<^verbatim>\<open>Run\<close>: \<^verbatim>\<open>defer close(p.disconnected)\<close> runs on every way out of the body, a panic
  included; closing a channel already closed would itself panic.
\<close>

definition Run :: "Bitfield \<Rightarrow> Peer \<Rightarrow> exit \<times> Peer" where
  "Run b p =
     (case Run_body b p of
        (e, p') \<Rightarrow>
          (case close_chan (disconnected p') of
             None \<Rightarrow> (Panicked CloseOfClosedChannel, p')
           | Some ch \<Rightarrow> (e, p'\<lparr>disconnected := ch\<rparr>)))"

section \<open>What the loop leaves alone\<close>

lemma be_put_uint32: "be_uint32 (put_uint32 w) = w"
  unfolding be_uint32_def put_uint32_def
  apply simp
  apply (rule bit_word_eqI)
  subgoal for n
    by (cases "n < 8"; cases "n < 16"; cases "n < 24") (auto simp: bit_simps le_diff_conv2 not_less)
  done

lemma length_put_uint32: "length (put_uint32 w) = 4"
  by (simp add: put_uint32_def)

lemma read_full_frame:
  "out (snd (read_full n c)) = out c"
  by (simp add: read_full_def)

lemma select_send_frame:
  "select_send p m = Some p' \<Longrightarrow> disconnected p' = disconnected p \<and> out (conn p') = out (conn p)"
  by (auto simp: select_send_def split: if_splits)

lemma emit_haves_frame:
  "disconnected (peer_of (emit_haves xs p)) = disconnected p \<and>
   out (conn (peer_of (emit_haves xs p))) = out (conn p)"
proof (induction xs arbitrary: p)
  case Nil
  show ?case by simp
next
  case (Cons i rest)
  show ?case
    by (auto simp: Cons.IH split: option.splits bool.splits dest: select_send_frame)
qed

lemma handle_Choke_frame:
  "disconnected (peer_of (handle_Choke p)) = disconnected p \<and>
   out (conn (peer_of (handle_Choke p))) = out (conn p)"
  by (auto simp: handle_Choke_def Let_def split: option.splits dest!: select_send_frame)

lemma handle_Have_frame:
  "disconnected (peer_of (handle_Have p)) = disconnected p \<and>
   out (conn (peer_of (handle_Have p))) = out (conn p)"
  by (auto simp: handle_Have_def Let_def read_full_def split: option.splits if_splits dest!: select_send_frame)

lemma handle_Bitfield_frame:
  "disconnected (peer_of (handle_Bitfield first len p)) = disconnected p \<and>
   out (conn (peer_of (handle_Bitfield first len p))) = out (conn p)"
  by (auto simp: handle_Bitfield_def Let_def read_full_def emit_haves_frame split: option.splits if_splits)

lemma handle_Piece_frame:
  "disconnected (peer_of (handle_Piece len p)) = disconnected p \<and>
   out (conn (peer_of (handle_Piece len p))) = out (conn p)"
  by (auto simp: handle_Piece_def Let_def read_full_def split: option.splits if_splits)

lemma handle_default_frame:
  "disconnected (peer_of (handle_default len p)) = disconnected p \<and>
   out (conn (peer_of (handle_default len p))) = out (conn p)"
  by (auto simp: handle_default_def Let_def read_full_def split: option.splits if_splits)

lemma dispatch_frame:
  "disconnected (peer_of (dispatch first mid len p)) = disconnected p \<and>
   out (conn (peer_of (dispatch first mid len p))) = out (conn p)"
  by (simp add: dispatch_def handle_Choke_frame handle_Have_frame handle_Bitfield_frame
      handle_Piece_frame handle_default_frame)

lemma step_frame:
  "disconnected (peer_of (step first p)) = disconnected p \<and>
   out (conn (peer_of (step first p))) = out (conn p)"
  by (auto simp: step_def Let_def read_full_def dispatch_frame split: option.splits if_splits)

lemma loop_frame:
  "disconnected (snd (loop first p)) = disconnected p \<and>
   out (conn (snd (loop first p))) = out (conn p)"
proof (induction first p rule: loop.induct)
  case (1 first p)
  show ?case
  proof (cases "step first p")
    case (Exit e p')
    with step_frame [of first p] show ?thesis
      by (simp add: loop.simps [of first p])
  next
    case (Next f p')
    with step_frame [of first p] "1.IH" [OF Next] show ?thesis
      by (simp add: loop.simps [of first p])
  qed
qed

section \<open>Evaluation\<close>

text \<open>The unfoldings that evaluate a run on a concrete stream.\<close>

lemmas peer_defs = fresh_peer_def New_def conn_of_def
lemmas wire_defs = be_uint32_def be_uint8_def put_uint32_def
  Choke_def Unchoke_def Interested_def NotInterested_def Have_def Bitfield_def
  Request_def Piece_def Cancel_def Port_def
lemmas handler_defs = step_def dispatch_def read_full_def select_send_def
  handle_Choke_def handle_Have_def handle_Bitfield_def handle_Piece_def handle_default_def
  NumBytes_def NewBytes_def unpack_bits_def bf_Len_def bf_Test_def bf_Set_def bf_Count_def Let_def
lemmas run_defs = Run_def Run_body_def sendBitfield_def writeMessage_def close_chan_def

section \<open>The disconnect signal\<close>

lemma Run_body_frame:
  "disconnected (snd (Run_body b p)) = disconnected p"
  by (auto simp: Run_body_def sendBitfield_def writeMessage_def Let_def loop_frame split: prod.splits bool.splits)

text \<open>
  C9: on every way out of \<^verbatim>\<open>Run\<close> (whatever the exit \<open>e\<close> of its body: a read error,
  which is what a read timeout and EOF are, a write error, a protocol violation, the stop
  signal, a panic) the channel \<^verbatim>\<open>NotifyDisconnect\<close> returns is closed, and it is closed
  exactly once: the body leaves it open and the deferred call closes it, without the
  panic a second close would be. \<open>Run\<close> is a total function, so every run has an exit.
\<close>

theorem Run_fires_disconnect_once:
  assumes "disconnected p = ChOpen" and "Run_body b p = (e, p')"
  shows "disconnected p' = ChOpen \<and> Run b p = (e, p'\<lparr>disconnected := ChClosed\<rparr>)"
proof -
  from Run_body_frame [of b p] assms have d: "disconnected p' = ChOpen" by simp
  with assms(2) show ?thesis by (simp add: Run_def close_chan_def)
qed

theorem Run_fires_disconnect_once_witness:
  "disconnected (fresh_peer [0, 0, 0, 5, 4, 0, 0, 0, 8]) = ChOpen \<and>
   Run_body [] (fresh_peer [0, 0, 0, 5, 4, 0, 0, 0, 8]) = (ProtocolViolation, fresh_peer []) \<and>
   Run [] (fresh_peer [0, 0, 0, 5, 4, 0, 0, 0, 8]) =
     (ProtocolViolation, (fresh_peer [])\<lparr>disconnected := ChClosed\<rparr>)"
proof -
  have a: "disconnected (fresh_peer [0, 0, 0, 5, 4, 0, 0, 0, 8]) = ChOpen"
    by (simp add: fresh_peer_def New_def)
  have b: "Run_body [] (fresh_peer [0, 0, 0, 5, 4, 0, 0, 0, 8]) = (ProtocolViolation, fresh_peer [])"
    by (simp add: run_defs loop.simps handler_defs wire_defs peer_defs)
  from Run_fires_disconnect_once [OF a b] a b show ?thesis by simp
qed

section \<open>What Run writes\<close>

lemma Run_conn: "conn (snd (Run b p)) = conn (snd (Run_body b p))"
  by (simp add: Run_def split: prod.splits option.splits)

lemma Run_body_out:
  "out (conn (snd (Run_body b p))) =
     out (conn p) @
     (if bf_Count b = 0 then []
      else [put_uint32 (of_nat (1 + length (bf_Bytes b))) @ [Bitfield] @ bf_Bytes b])"
proof (cases "bf_Count b = 0")
  case True
  then show ?thesis
    by (simp add: Run_body_def sendBitfield_def loop_frame)
next
  case False
  then show ?thesis
    by (cases "write_fails (conn p) \<or> conn_closed (conn p)")
       (simp_all add: Run_body_def sendBitfield_def writeMessage_def Let_def loop_frame)
qed

text \<open>
  C8: the buffers \<^verbatim>\<open>Run\<close> hands to \<^verbatim>\<open>conn.Write\<close> are: none at all when the local
  bitfield has no set bit, and otherwise exactly one, the bitfield message (length prefix,
  id 5, the packed bitfield), written before anything is read. So the bitfield is sent,
  first, if and only if the local peer owns a piece, and no empty bitfield is ever sent.
\<close>

theorem Run_sends_bitfield_iff_owned:
  "out (conn (snd (Run b p))) =
     out (conn p) @
     (if bf_Count b = 0 then []
      else [put_uint32 (of_nat (1 + length (bf_Bytes b))) @ [Bitfield] @ bf_Bytes b])"
  by (simp only: Run_conn Run_body_out)

section \<open>Close\<close>

text \<open>
  C10: \<^verbatim>\<open>Close\<close> called on a peer on which \<^verbatim>\<open>Close\<close> has returned panics: it closes
  the channel \<open>stopC\<close> that the first call closed.
\<close>

theorem Close_twice_panics:
  "Close p = Inr (err, p') \<Longrightarrow> Close p' = Inl CloseOfClosedChannel"
  by (auto simp: Close_def close_chan_def split: chan.splits)

theorem Close_twice_panics_witness:
  "Close (fresh_peer []) =
     Inr (False, (fresh_peer [])\<lparr>conn := (conn_of [])\<lparr>conn_closed := True\<rparr>, stopC := ChClosed\<rparr>) \<and>
   Close ((fresh_peer [])\<lparr>conn := (conn_of [])\<lparr>conn_closed := True\<rparr>, stopC := ChClosed\<rparr>) =
     Inl CloseOfClosedChannel"
proof -
  have a: "Close (fresh_peer []) =
     Inr (False, (fresh_peer [])\<lparr>conn := (conn_of [])\<lparr>conn_closed := True\<rparr>, stopC := ChClosed\<rparr>)"
    by (simp add: Close_def close_chan_def fresh_peer_def New_def conn_of_def)
  from Close_twice_panics [OF a] a show ?thesis by simp
qed

section \<open>SendChoke\<close>

text \<open>
  C5, as stated, fails: a peer fresh from \<^verbatim>\<open>New\<close> has \<open>amChoking\<close> true, so two calls of
  \<^verbatim>\<open>SendChoke\<close> write nothing, not one message.
\<close>

theorem SendChoke_twice_fresh_counterexample:
  "out (conn (snd (SendChoke (snd (SendChoke (fresh_peer [])))))) = []"
  by (simp add: SendChoke_def fresh_peer_def New_def conn_of_def)

text \<open>
  C5, amended: on a peer fresh from \<^verbatim>\<open>New\<close> \<^verbatim>\<open>SendChoke\<close> does nothing (so two calls
  in a row put no message on the wire); on any peer with \<open>amChoking\<close> true it returns nil
  and leaves the state, the connection included, as it was; and from a peer with
  \<open>amChoking\<close> false two calls in a row write exactly one choke message.
\<close>

theorem SendChoke_redundant:
  "SendChoke (New c pid n msgs sw) = (False, New c pid n msgs sw) \<and>
   (amChoking p \<longrightarrow> SendChoke p = (False, p)) \<and>
   (\<not> amChoking q \<longrightarrow>
      out (conn (snd (SendChoke (snd (SendChoke q))))) = out (conn q) @ [put_uint32 1 @ [Choke]])"
  by (simp add: SendChoke_def New_def writeMessage_def Let_def)

theorem SendChoke_redundant_witness:
  "amChoking (fresh_peer []) \<and> SendChoke (fresh_peer []) = (False, fresh_peer []) \<and>
   \<not> amChoking (snd (SendUnchoke (fresh_peer []))) \<and>
   out (conn (snd (SendChoke (snd (SendChoke (snd (SendUnchoke (fresh_peer [])))))))) =
     [[0, 0, 0, 1, 1], [0, 0, 0, 1, 0]]"
proof -
  have a: "amChoking (fresh_peer [])"
    by (simp add: fresh_peer_def New_def)
  have b: "\<not> amChoking (snd (SendUnchoke (fresh_peer [])))"
    by (simp add: SendUnchoke_def writeMessage_def fresh_peer_def New_def Let_def)
  have c: "out (conn (snd (SendUnchoke (fresh_peer [])))) = [[0, 0, 0, 1, 1]]"
    by (simp add: SendUnchoke_def writeMessage_def fresh_peer_def New_def conn_of_def put_uint32_def Unchoke_def Let_def)
  from SendChoke_redundant [of "conn_of []" "[]" 8 "[]" "\<lambda>k. False" "fresh_peer []" "snd (SendUnchoke (fresh_peer []))"]
    a b c show ?thesis
    by (simp add: put_uint32_def Choke_def)
qed

section \<open>One message at a time\<close>

lemma read_full_append:
  "\<not> conn_closed c \<Longrightarrow> inp c = xs @ ys \<Longrightarrow> length xs = n \<Longrightarrow>
   read_full n c = (Some xs, c\<lparr>inp := ys\<rparr>)"
  by (simp add: read_full_def)

lemma step_keep_alive:
  assumes "\<not> deadline_fails (conn p)" and "\<not> conn_closed (conn p)"
    and "inp (conn p) = lb @ rest" and "length lb = 4" and "be_uint32 lb = 0"
  shows "step first p = Next first (p\<lparr>conn := (conn p)\<lparr>inp := rest\<rparr>\<rparr>)"
  using assms by (simp add: step_def read_full_append [of "conn p" lb rest 4])

lemma step_message:
  assumes "\<not> deadline_fails (conn p)" and "\<not> conn_closed (conn p)"
    and "inp (conn p) = lb @ mid # rest" and "length lb = 4" and "be_uint32 lb \<noteq> 0"
  shows "step first p =
     dispatch first mid (be_uint32 lb - 1) (p\<lparr>conn := (conn p)\<lparr>inp := rest\<rparr>\<rparr>)"
proof -
  have a: "read_full 4 (conn p) = (Some lb, (conn p)\<lparr>inp := mid # rest\<rparr>)"
    using assms by (simp add: read_full_append)
  have b: "read_full (Suc 0) ((conn p)\<lparr>inp := mid # rest\<rparr>) = (Some [mid], (conn p)\<lparr>inp := rest\<rparr>)"
    using assms(2) by (simp add: read_full_def)
  show ?thesis
    using assms(1,5) by (simp add: step_def a b Let_def be_uint8_def)
qed

lemma loop_Exit: "step first p = Exit e p' \<Longrightarrow> loop first p = (e, p')"
  by (simp add: loop.simps [of first p])

lemma loop_Next: "step first p = Next f p' \<Longrightarrow> loop first p = loop f p'"
  by (simp add: loop.simps [of first p])

lemma dispatch_Have: "dispatch first Have len p = handle_Have p"
  by (simp add: dispatch_def wire_defs)

lemma dispatch_Bitfield: "dispatch first Bitfield len p = handle_Bitfield first len p"
  by (simp add: dispatch_def wire_defs)

lemma dispatch_Piece: "dispatch first Piece len p = handle_Piece len p"
  by (simp add: dispatch_def wire_defs)

lemma dispatch_Request: "dispatch first Request len p = handle_default len p"
  by (simp add: dispatch_def wire_defs)

section \<open>have\<close>

text \<open>
  C7: when the next message on a healthy connection is a have (any non-zero length
  prefix, id 4, four bytes of index) whose index equals or exceeds the piece count, the
  read loop returns, as a protocol violation, and the state it leaves differs from the
  state it found only in the nine bytes consumed: nothing has been forwarded on the
  messages channel and the peer's bitfield is untouched.
\<close>

theorem have_out_of_range_closes:
  assumes "\<not> deadline_fails (conn p)" and "\<not> conn_closed (conn p)"
    and "inp (conn p) = lb @ Have # ib @ rest" and "length lb = 4" and "be_uint32 lb \<noteq> 0"
    and "length ib = 4" and "numPieces p \<le> be_uint32 ib"
  shows "loop first p = (ProtocolViolation, p\<lparr>conn := (conn p)\<lparr>inp := rest\<rparr>\<rparr>)"
proof -
  let ?p1 = "p\<lparr>conn := (conn p)\<lparr>inp := ib @ rest\<rparr>\<rparr>"
  have "step first p = handle_Have ?p1"
    using assms by (simp add: step_message dispatch_Have)
  moreover have "read_full 4 (conn ?p1) = (Some ib, (conn p)\<lparr>inp := rest\<rparr>)"
    using assms(2,6) by (simp add: read_full_append)
  ultimately have "step first p = Exit ProtocolViolation (p\<lparr>conn := (conn p)\<lparr>inp := rest\<rparr>\<rparr>)"
    using assms(7) by (simp add: handle_Have_def Let_def)
  then show ?thesis by (rule loop_Exit)
qed

theorem have_out_of_range_closes_witness:
  "\<not> deadline_fails (conn (fresh_peer [0, 0, 0, 5, 4, 0, 0, 0, 8, 0, 0, 0, 0])) \<and>
   \<not> conn_closed (conn (fresh_peer [0, 0, 0, 5, 4, 0, 0, 0, 8, 0, 0, 0, 0])) \<and>
   inp (conn (fresh_peer [0, 0, 0, 5, 4, 0, 0, 0, 8, 0, 0, 0, 0])) =
     [0, 0, 0, 5] @ Have # [0, 0, 0, 8] @ [0, 0, 0, 0] \<and>
   be_uint32 [0, 0, 0, 5] \<noteq> 0 \<and>
   numPieces (fresh_peer [0, 0, 0, 5, 4, 0, 0, 0, 8, 0, 0, 0, 0]) \<le> be_uint32 [0, 0, 0, 8] \<and>
   loop True (fresh_peer [0, 0, 0, 5, 4, 0, 0, 0, 8, 0, 0, 0, 0]) =
     (ProtocolViolation, fresh_peer [0, 0, 0, 0]) \<and>
   messages (fresh_peer [0, 0, 0, 0]) = []"
proof -
  let ?p = "fresh_peer [0, 0, 0, 5, 4, 0, 0, 0, 8, 0, 0, 0, 0]"
  have a: "\<not> deadline_fails (conn ?p)" and b: "\<not> conn_closed (conn ?p)"
    and c: "inp (conn ?p) = [0, 0, 0, 5] @ Have # [0, 0, 0, 8] @ [0, 0, 0, 0]"
    and d: "be_uint32 [0, 0, 0, 5] \<noteq> 0"
    and e: "numPieces ?p \<le> be_uint32 [0, 0, 0, 8]"
    by (simp_all add: peer_defs wire_defs)
  have f: "?p\<lparr>conn := (conn ?p)\<lparr>inp := [0, 0, 0, 0]\<rparr>\<rparr> = fresh_peer [0, 0, 0, 0]"
    by (simp add: peer_defs)
  from have_out_of_range_closes [OF a b c _ d _ e, of True] a b c d e f show ?thesis
    by (simp add: peer_defs)
qed

section \<open>bitfield\<close>

lemma NumBytes_bound: "NumBytes (unat (w :: uint32)) < 2 ^ 32"
proof -
  have "unat w < 2 ^ 32" using unsigned_less [of w] by simp
  then show ?thesis by (simp add: NumBytes_def)
qed

lemma unat_NumBytes:
  "unat (of_nat (NumBytes (unat (w :: uint32))) :: uint32) = NumBytes (unat w)"
  using NumBytes_bound [of w] by (simp add: of_nat_inverse)

lemma payload_length_eq:
  assumes "(l :: uint32) \<noteq> 0"
  shows "(l - 1 = of_nat (NumBytes (unat (w :: uint32)))) = (unat l - 1 = NumBytes (unat w))"
proof -
  have "unat (l - 1) = unat l - 1"
    using assms by (simp add: unat_minus_one)
  then show ?thesis
    using unat_NumBytes [of w] by (simp add: word_unat_eq_iff)
qed

lemma length_unpack_bits: "length (unpack_bits b n) = n"
  by (simp add: unpack_bits_def)

lemma emit_haves_open:
  assumes "stopC p = ChOpen" and "bitfield p = Some bf" and "\<forall>i\<in>set xs. i < length bf"
  shows "emit_haves xs p =
     Next False (p\<lparr>messages := messages p @ map (\<lambda>i. MsgHave (of_nat i)) (filter (\<lambda>i. bf ! i) xs)\<rparr>)"
  using assms
proof (induction xs arbitrary: p)
  case Nil
  then show ?case by simp
next
  case (Cons i rest)
  show ?case
  proof (cases "bf ! i")
    case True
    let ?p' = "p\<lparr>messages := messages p @ [MsgHave (of_nat i)]\<rparr>"
    have s: "select_send p (MsgHave (of_nat i)) = Some ?p'"
      using Cons.prems(1) by (simp add: select_send_def)
    have "emit_haves rest ?p' =
      Next False (?p'\<lparr>messages := messages ?p' @ map (\<lambda>i. MsgHave (of_nat i)) (filter (\<lambda>i. bf ! i) rest)\<rparr>)"
      using Cons.prems by (intro Cons.IH) simp_all
    then show ?thesis
      using Cons.prems True s by (simp add: bf_Test_def)
  next
    case False
    then show ?thesis
      using Cons.prems Cons.IH [of p] by (simp add: bf_Test_def)
  qed
qed

text \<open>
  C6: when the first message on a healthy connection is a bitfield (\<open>first\<close> is true,
  the length prefix \<open>lb\<close> is not zero, the id is 5) and the stop channel is open: if the
  declared payload length (the prefix less one) is not \<open>NumBytes\<close> of the piece count, the
  loop returns with a protocol violation; otherwise, the payload being on the stream, the
  bitfield \<open>bf\<close> decoded from it becomes the peer's bitfield and the events forwarded are
  exactly a have for each \<open>i\<close> below the piece count with bit \<open>i\<close> of \<open>bf\<close> set, in
  increasing order, and none for a cleared bit. (A stream that ends inside the payload
  is a read error.)
\<close>

theorem first_bitfield_message:
  assumes "\<not> deadline_fails (conn p)" and "\<not> conn_closed (conn p)" and "stopC p = ChOpen"
    and "inp (conn p) = lb @ Bitfield # rest" and "length lb = 4" and "be_uint32 lb \<noteq> 0"
    and "n = unat (numPieces p)" and "bf = unpack_bits (take (NumBytes n) rest) n"
  shows "step True p =
     (if unat (be_uint32 lb) - 1 = NumBytes n then
        if NumBytes n \<le> length rest then
          Next False
            (p\<lparr>conn := (conn p)\<lparr>inp := drop (NumBytes n) rest\<rparr>,
               bitfield := Some bf,
               messages := messages p @
                 map (\<lambda>i. MsgHave (of_nat i)) (filter (\<lambda>i. bf ! i) [0..<n])\<rparr>)
        else Exit ReadError (p\<lparr>conn := (conn p)\<lparr>inp := []\<rparr>\<rparr>)
      else Exit ProtocolViolation (p\<lparr>conn := (conn p)\<lparr>inp := rest\<rparr>\<rparr>))"
proof -
  let ?p1 = "p\<lparr>conn := (conn p)\<lparr>inp := rest\<rparr>\<rparr>"
  have st: "step True p = handle_Bitfield True (be_uint32 lb - 1) ?p1"
    using assms(1-6) by (simp add: step_message dispatch_Bitfield)
  have len: "(be_uint32 lb - 1 = of_nat (NumBytes (unat (numPieces p)))) =
      (unat (be_uint32 lb) - 1 = NumBytes n)"
    using assms(6,7) by (simp add: payload_length_eq)
  show ?thesis
  proof (cases "unat (be_uint32 lb) - 1 = NumBytes n")
    case False
    then show ?thesis
      using st len by (simp add: handle_Bitfield_def Let_def)
  next
    case eq: True
    show ?thesis
    proof (cases "NumBytes n \<le> length rest")
      case False
      then have "read_full (NumBytes n) (conn ?p1) = (None, (conn p)\<lparr>inp := []\<rparr>)"
        using assms(2) by (simp add: read_full_def)
      then show ?thesis
        using st len eq False assms(7) by (simp add: handle_Bitfield_def Let_def unat_NumBytes)
    next
      case True
      let ?c = "(conn p)\<lparr>inp := drop (NumBytes n) rest\<rparr>"
      let ?p2 = "p\<lparr>conn := ?c, bitfield := Some bf\<rparr>"
      have r: "read_full (NumBytes n) (conn ?p1) = (Some (take (NumBytes n) rest), ?c)"
        using assms(2) True by (simp add: read_full_def)
      have nb: "NewBytes (take (NumBytes n) rest) n = Some bf"
        using True assms(8) by (simp add: NewBytes_def)
      have "emit_haves [0..<n] ?p2 =
        Next False (?p2\<lparr>messages := messages ?p2 @
          map (\<lambda>i. MsgHave (of_nat i)) (filter (\<lambda>i. bf ! i) [0..<n])\<rparr>)"
        using assms(3,8) by (intro emit_haves_open) (simp_all add: length_unpack_bits)
      then show ?thesis
        using st len eq True r nb assms(7,8)
        by (simp add: handle_Bitfield_def Let_def unat_NumBytes bf_Len_def length_unpack_bits)
    qed
  qed
qed


theorem first_bitfield_message_witness:
  "step True (New (conn_of [0, 0, 0, 3, 5, 0xA0, 0xFF, 0, 0, 0, 0]) [] 10 [] (\<lambda>k. False)) =
     Next False
       ((New (conn_of [0, 0, 0, 0]) [] 10 [] (\<lambda>k. False))
          \<lparr>bitfield := Some [True, False, True, False, False, False, False, False, True, True],
           messages := [MsgHave 0, MsgHave 2, MsgHave 8, MsgHave 9]\<rparr>) \<and>
   step True (New (conn_of [0, 0, 0, 2, 5, 0xA0, 0xFF, 0, 0, 0, 0]) [] 10 [] (\<lambda>k. False)) =
     Exit ProtocolViolation (New (conn_of [0xA0, 0xFF, 0, 0, 0, 0]) [] 10 [] (\<lambda>k. False))"
proof -
  let ?p = "New (conn_of [0, 0, 0, 3, 5, 0xA0, 0xFF, 0, 0, 0, 0]) [] 10 [] (\<lambda>k. False)"
  let ?q = "New (conn_of [0, 0, 0, 2, 5, 0xA0, 0xFF, 0, 0, 0, 0]) [] 10 [] (\<lambda>k. False)"
  have bits: "unpack_bits [0xA0, 0xFF] 10 =
      [True, False, True, False, False, False, False, False, True, True]"
    by (simp add: unpack_bits_def upt_rec)
  have p: "\<not> deadline_fails (conn ?p)" "\<not> conn_closed (conn ?p)" "stopC ?p = ChOpen"
    "inp (conn ?p) = [0, 0, 0, 3] @ Bitfield # [0xA0, 0xFF, 0, 0, 0, 0]"
    "length [0, 0, 0, 3 :: byte] = 4" "be_uint32 [0, 0, 0, 3] \<noteq> 0"
    "10 = unat (numPieces ?p)"
    by (simp_all add: peer_defs wire_defs)
  have q: "\<not> deadline_fails (conn ?q)" "\<not> conn_closed (conn ?q)" "stopC ?q = ChOpen"
    "inp (conn ?q) = [0, 0, 0, 2] @ Bitfield # [0xA0, 0xFF, 0, 0, 0, 0]"
    "length [0, 0, 0, 2 :: byte] = 4" "be_uint32 [0, 0, 0, 2] \<noteq> 0"
    "10 = unat (numPieces ?q)"
    by (simp_all add: peer_defs wire_defs)
  have a: "step True ?p =
     Next False
       ((New (conn_of [0, 0, 0, 0]) [] 10 [] (\<lambda>k. False))
          \<lparr>bitfield := Some [True, False, True, False, False, False, False, False, True, True],
           messages := [MsgHave 0, MsgHave 2, MsgHave 8, MsgHave 9]\<rparr>)"
    using first_bitfield_message [OF p refl]
    by (simp add: bits peer_defs wire_defs NumBytes_def upt_rec)
  have b: "step True ?q =
     Exit ProtocolViolation (New (conn_of [0xA0, 0xFF, 0, 0, 0, 0]) [] 10 [] (\<lambda>k. False))"
    using first_bitfield_message [OF q refl]
    by (simp add: peer_defs wire_defs NumBytes_def)
  from a b show ?thesis by simp
qed

section \<open>request and other unhandled messages\<close>

text \<open>
  The switch has no request case: a request, whatever its index, begin and length, takes
  the default branch, as does every id the switch does not name. Its declared payload is
  discarded and the loop goes on.
\<close>

lemma request_is_discarded:
  assumes "\<not> deadline_fails (conn p)" and "\<not> conn_closed (conn p)"
    and "inp (conn p) =
      put_uint32 13 @ Request # (put_uint32 index @ put_uint32 begin @ put_uint32 len) @ rest"
  shows "step first p = Next False (p\<lparr>conn := (conn p)\<lparr>inp := rest\<rparr>\<rparr>)"
proof -
  let ?payload = "put_uint32 index @ put_uint32 begin @ put_uint32 len"
  let ?p1 = "p\<lparr>conn := (conn p)\<lparr>inp := ?payload @ rest\<rparr>\<rparr>"
  have "step first p = dispatch first Request (be_uint32 (put_uint32 13) - 1) ?p1"
    using assms by (intro step_message) (simp_all add: length_put_uint32 be_put_uint32)
  then have st: "step first p = handle_default 12 ?p1"
    by (simp add: be_put_uint32 dispatch_Request)
  have "read_full 12 (conn ?p1) = (Some ?payload, (conn p)\<lparr>inp := rest\<rparr>)"
    using assms(2) by (simp add: read_full_def length_put_uint32)
  then show ?thesis
    using st by (simp add: handle_default_def)
qed

lemma unhandled_is_discarded:
  assumes "\<not> deadline_fails (conn p)" and "\<not> conn_closed (conn p)"
    and "inp (conn p) = lb @ mid # payload @ rest" and "length lb = 4" and "be_uint32 lb \<noteq> 0"
    and "mid \<notin> {Choke, Unchoke, Interested, NotInterested, Have, Bitfield, Piece}"
    and "length payload = unat (be_uint32 lb) - 1"
  shows "step first p = Next False (p\<lparr>conn := (conn p)\<lparr>inp := rest\<rparr>\<rparr>)"
proof -
  let ?p1 = "p\<lparr>conn := (conn p)\<lparr>inp := payload @ rest\<rparr>\<rparr>"
  have "step first p = dispatch first mid (be_uint32 lb - 1) ?p1"
    using assms by (simp add: step_message)
  then have st: "step first p = handle_default (be_uint32 lb - 1) ?p1"
    using assms(6) by (simp add: dispatch_def)
  have "unat (be_uint32 lb - 1) = length payload"
    using assms(5,7) by (simp add: unat_minus_one)
  then have "read_full (unat (be_uint32 lb - 1)) (conn ?p1) = (Some payload, (conn p)\<lparr>inp := rest\<rparr>)"
    using assms(2) by (simp add: read_full_def)
  then show ?thesis
    using st by (simp add: handle_default_def)
qed

text \<open>
  C1, evaluated: \<^verbatim>\<open>maxAllowedBlockSize\<close> is 32768, and a request for 32769 bytes (index 0,
  begin 0) is not rejected. The iteration that reads it goes on to the next one with the
  bytes that follow (here a choke message) still to read, and \<^verbatim>\<open>Run\<close> forwards that choke
  and returns only when the stream ends.
\<close>

theorem oversized_request_not_rejected:
  "maxAllowedBlockSize < 32769 \<and>
   step True (fresh_peer ([0, 0, 0, 13, 6, 0, 0, 0, 0, 0, 0, 0, 0, 0, 0, 0x80, 1] @ [0, 0, 0, 1, 0])) =
     Next False (fresh_peer [0, 0, 0, 1, 0]) \<and>
   Run [] (fresh_peer ([0, 0, 0, 13, 6, 0, 0, 0, 0, 0, 0, 0, 0, 0, 0, 0x80, 1] @ [0, 0, 0, 1, 0])) =
     (ReadError, (fresh_peer [])\<lparr>messages := [MsgChoke], disconnected := ChClosed\<rparr>)"
  by (simp add: maxAllowedBlockSize_def run_defs loop.simps handler_defs wire_defs peer_defs)

section \<open>piece\<close>

text \<open>
  Whatever length a piece message declares, the iteration reads the prefix, the id and the
  eight bytes of index and begin, thirteen bytes in all, and leaves the block where it is.
\<close>

lemma piece_block_left_unread:
  assumes "\<not> deadline_fails (conn p)" and "\<not> conn_closed (conn p)"
    and "inp (conn p) = lb @ Piece # hdr @ rest" and "length lb = 4" and "be_uint32 lb \<noteq> 0"
    and "length hdr = 8"
  shows "step first p = Next False (p\<lparr>conn := (conn p)\<lparr>inp := rest\<rparr>\<rparr>)"
proof -
  let ?p1 = "p\<lparr>conn := (conn p)\<lparr>inp := hdr @ rest\<rparr>\<rparr>"
  have st: "step first p = handle_Piece (be_uint32 lb - 1) ?p1"
    using assms by (simp add: step_message dispatch_Piece)
  have "read_full 8 (conn ?p1) = (Some hdr, (conn p)\<lparr>inp := rest\<rparr>)"
    using assms(2,6) by (simp add: read_full_def)
  then show ?thesis
    using st by (simp add: handle_Piece_def)
qed

text \<open>
  C2, evaluated: a piece message of declared length 10 (index 0, begin 0, the one block
  byte AA) followed by a keep-alive. The iteration consumes 13 bytes, not 4 + 10: the
  block byte is still on the stream. The next iteration reads it and three bytes of the
  keep-alive as a length prefix and the fourth as the id of a choke, which \<^verbatim>\<open>Run\<close>
  forwards although the peer sent none.
\<close>

theorem piece_block_desynchronizes:
  "step True (fresh_peer ([0, 0, 0, 10, 7, 0, 0, 0, 0, 0, 0, 0, 0, 0xAA] @ [0, 0, 0, 0])) =
     Next False (fresh_peer ([0xAA] @ [0, 0, 0, 0])) \<and>
   Run [] (fresh_peer ([0, 0, 0, 10, 7, 0, 0, 0, 0, 0, 0, 0, 0, 0xAA] @ [0, 0, 0, 0])) =
     (ReadError, (fresh_peer [])\<lparr>messages := [MsgChoke], disconnected := ChClosed\<rparr>)"
  by (simp add: run_defs loop.simps handler_defs wire_defs peer_defs)

section \<open>bitfield after another message\<close>

text \<open>
  A bitfield met with \<open>first\<close> false is a protocol violation, and every iteration that
  goes round again leaves \<open>first\<close> false, except the one that read a keep-alive.
\<close>

lemma late_bitfield_rejected:
  assumes "\<not> deadline_fails (conn p)" and "\<not> conn_closed (conn p)"
    and "inp (conn p) = lb @ Bitfield # rest" and "length lb = 4" and "be_uint32 lb \<noteq> 0"
  shows "step False p = Exit ProtocolViolation (p\<lparr>conn := (conn p)\<lparr>inp := rest\<rparr>\<rparr>)"
  using assms by (simp add: step_message dispatch_Bitfield handle_Bitfield_def)

lemma emit_haves_Next: "emit_haves xs p = Next f p' \<Longrightarrow> f = False"
  by (induction xs arbitrary: p) (auto split: option.splits bool.splits)

lemma dispatch_Next: "dispatch first mid len p = Next f p' \<Longrightarrow> f = False"
  by (auto simp: dispatch_def handle_Choke_def handle_Have_def handle_Bitfield_def
        handle_Piece_def handle_default_def Let_def
      split: if_splits option.splits prod.splits dest: emit_haves_Next)

lemma step_Next_True:
  assumes "step first p = Next True p'"
  shows "first \<and> be_uint32 (take 4 (inp (conn p))) = 0"
proof -
  from assms obtain lb c where r: "read_full 4 (conn p) = (Some lb, c)"
    by (auto simp: step_def split: if_splits option.splits prod.splits)
  then have lb: "lb = take 4 (inp (conn p))"
    by (auto simp: read_full_def split: if_splits)
  show ?thesis
  proof (cases "be_uint32 lb = 0")
    case True
    with assms r lb show ?thesis
      by (auto simp: step_def split: if_splits)
  next
    case False
    with assms r have "\<exists>mid len q. dispatch first mid len q = Next True p'"
      by (auto simp: step_def Let_def split: if_splits option.splits prod.splits)
    then show ?thesis by (auto dest: dispatch_Next)
  qed
qed

text \<open>
  C3, evaluated: a keep-alive followed by a bitfield message for eight pieces (bit 0
  set). The keep-alive leaves \<open>first\<close> true, so the bitfield that follows it is accepted:
  it becomes the peer's bitfield, a have for piece 0 is forwarded, and \<^verbatim>\<open>Run\<close> returns
  only when the stream ends, with a read error and not a protocol violation.
\<close>

theorem bitfield_after_keep_alive_accepted:
  "step True (fresh_peer ([0, 0, 0, 0] @ [0, 0, 0, 2, 5, 0x80])) =
     Next True (fresh_peer [0, 0, 0, 2, 5, 0x80]) \<and>
   Run [] (fresh_peer ([0, 0, 0, 0] @ [0, 0, 0, 2, 5, 0x80])) =
     (ReadError,
      (fresh_peer [])
        \<lparr>bitfield := Some [True, False, False, False, False, False, False, False],
         messages := [MsgHave 0], disconnected := ChClosed\<rparr>)"
  by (simp add: run_defs loop.simps handler_defs wire_defs peer_defs upt_rec)

section \<open>have before any bitfield\<close>

text \<open>
  With the peer's bitfield set, a have in range sets its bit and is forwarded. With the
  bitfield nil, as \<^verbatim>\<open>New\<close> leaves it, \<^verbatim>\<open>p.bitfield.Set\<close> panics.
\<close>

lemma have_on_nil_bitfield_panics:
  assumes "\<not> deadline_fails (conn p)" and "\<not> conn_closed (conn p)"
    and "inp (conn p) = lb @ Have # ib @ rest" and "length lb = 4" and "be_uint32 lb \<noteq> 0"
    and "length ib = 4" and "be_uint32 ib < numPieces p" and "bitfield p = None"
  shows "step first p = Exit (Panicked NilDereference) (p\<lparr>conn := (conn p)\<lparr>inp := rest\<rparr>\<rparr>)"
proof -
  let ?p1 = "p\<lparr>conn := (conn p)\<lparr>inp := ib @ rest\<rparr>\<rparr>"
  have st: "step first p = handle_Have ?p1"
    using assms by (simp add: step_message dispatch_Have)
  have "read_full 4 (conn ?p1) = (Some ib, (conn p)\<lparr>inp := rest\<rparr>)"
    using assms(2,6) by (simp add: read_full_append)
  then show ?thesis
    using st assms(7,8) by (simp add: handle_Have_def Let_def not_le)
qed

lemma have_sets_bit_and_forwards:
  assumes "\<not> deadline_fails (conn p)" and "\<not> conn_closed (conn p)" and "stopC p = ChOpen"
    and "inp (conn p) = lb @ Have # ib @ rest" and "length lb = 4" and "be_uint32 lb \<noteq> 0"
    and "length ib = 4" and "be_uint32 ib < numPieces p"
    and "bitfield p = Some bf" and "length bf = unat (numPieces p)"
  shows "step first p =
     Next False (p\<lparr>conn := (conn p)\<lparr>inp := rest\<rparr>,
                   bitfield := Some (bf[unat (be_uint32 ib) := True]),
                   messages := messages p @ [MsgHave (be_uint32 ib)]\<rparr>)"
proof -
  let ?p1 = "p\<lparr>conn := (conn p)\<lparr>inp := ib @ rest\<rparr>\<rparr>"
  have st: "step first p = handle_Have ?p1"
    using assms by (simp add: step_message dispatch_Have)
  have r: "read_full 4 (conn ?p1) = (Some ib, (conn p)\<lparr>inp := rest\<rparr>)"
    using assms(2,7) by (simp add: read_full_append)
  have "unat (be_uint32 ib) < length bf"
    using assms(8,10) by (simp add: word_less_nat_alt)
  then show ?thesis
    using st r assms(3,8,9) by (simp add: handle_Have_def Let_def not_le bf_Set_def select_send_def)
qed

text \<open>
  C4, evaluated: a have for piece 0 of 8 as the first message to a peer fresh from
  \<^verbatim>\<open>New\<close>. The peer's bitfield is nil; \<^verbatim>\<open>Run\<close> ends in the nil dereference of
  \<^verbatim>\<open>p.bitfield.Set\<close>, no bit is set (the bitfield is still nil) and no event is forwarded.
\<close>

theorem have_before_bitfield_panics:
  "bitfield (fresh_peer [0, 0, 0, 5, 4, 0, 0, 0, 0]) = None \<and>
   Run [] (fresh_peer [0, 0, 0, 5, 4, 0, 0, 0, 0]) =
     (Panicked NilDereference, (fresh_peer [])\<lparr>disconnected := ChClosed\<rparr>)"
  by (simp add: run_defs loop.simps handler_defs wire_defs peer_defs)

end
